theory Spec2Isabelle
  imports Main "HOL-Library.Sublist"
begin

section \<open>Configuration store (store/config)\<close>

text \<open>
  The zustand store of \<^verbatim>\<open>store/config\<close>. A backend call (\<^verbatim>\<open>invoke\<close>) either
  rejects with an error text (\<open>Inl\<close>) or resolves with a value (\<open>Inr\<close>); the outcome
  is an argument of the model of the handler that awaits it. Field names are global in
  HOL, so the fields that several interfaces share (\<^verbatim>\<open>id\<close>, \<^verbatim>\<open>name\<close>, \<^verbatim>\<open>is_dir\<close>,
  \<^verbatim>\<open>size\<close>, \<^verbatim>\<open>error\<close>, \<^verbatim>\<open>loading\<close>) carry a prefix.
\<close>

record FtpConnection =
  ftp_id :: string
  ftp_name :: string
  host :: string
  port :: nat
  username :: string
  password :: "string option"
  secure :: "bool option"

record CloudConnection =
  cloud_id :: string
  provider :: string
  account_name :: string
  token :: string

record AppConfig =
  ftp_connections :: "FtpConnection list"
  cloud_connections :: "CloudConnection list"

record ConfigStore =
  config :: AppConfig
  store_loading :: bool
  store_error :: "string option"

definition initial_store :: ConfigStore where
  "initial_store =
     \<lparr>config = \<lparr>ftp_connections = [], cloud_connections = []\<rparr>,
      store_loading = True, store_error = None\<rparr>"

text \<open>\<^verbatim>\<open>loadConfig\<close>: the result of \<^verbatim>\<open>invoke('load_config')\<close> is \<open>r\<close>.\<close>

definition loadConfig :: "string + AppConfig \<Rightarrow> ConfigStore \<Rightarrow> ConfigStore" where
  "loadConfig r s =
     (let s1 = s\<lparr>store_loading := True, store_error := None\<rparr>
      in case r of
           Inr c \<Rightarrow> s1\<lparr>config := c, store_loading := False\<rparr>
         | Inl err \<Rightarrow> s1\<lparr>store_error := Some err, store_loading := False\<rparr>)"

text \<open>\<^verbatim>\<open>saveConfig\<close>: the result of \<^verbatim>\<open>invoke('save_config', {config: newConfig})\<close> is \<open>r\<close>.\<close>

definition saveConfig :: "AppConfig \<Rightarrow> string + unit \<Rightarrow> ConfigStore \<Rightarrow> ConfigStore" where
  "saveConfig newConfig r s =
     (case r of
        Inr _ \<Rightarrow> s\<lparr>config := newConfig\<rparr>
      | Inl err \<Rightarrow> s\<lparr>store_error := Some err\<rparr>)"

section \<open>Strings\<close>

text \<open>
  File names and queries are ASCII text. \<^verbatim>\<open>toLowerCase\<close> maps the letters A to Z to
  a to z and leaves every other character alone.
\<close>

definition toLowerCase_char :: "char \<Rightarrow> char" where
  "toLowerCase_char c =
     (case map_of (zip ''ABCDEFGHIJKLMNOPQRSTUVWXYZ'' ''abcdefghijklmnopqrstuvwxyz'') c of
        Some l \<Rightarrow> l
      | None \<Rightarrow> c)"

definition toLowerCase :: "string \<Rightarrow> string" where
  "toLowerCase s = map toLowerCase_char s"

text \<open>\<^verbatim>\<open>s.includes(sub)\<close>: \<open>sub\<close> starts at some position of \<open>s\<close>.\<close>

fun includes_str :: "string \<Rightarrow> string \<Rightarrow> bool" where
  "includes_str [] sub = (sub = [])"
| "includes_str (c # cs) sub = (prefix sub (c # cs) \<or> includes_str cs sub)"

section \<open>Backend boundary\<close>

text \<open>
  The backend commands the handlers below invoke, with their arguments. A handler is
  modelled as one step from the state it finds to the state it leaves: the outcome of
  each call it awaits is an argument, and the calls it issues are part of its result.
  Where a property depends on what happens while a handler is suspended at its
  \<^verbatim>\<open>await\<close>, the handler is also given in two halves, before and after the
  \<^verbatim>\<open>await\<close>.
\<close>

datatype backend_call =
    ListDirectory string
  | GetFileIcon string
  | ListRemoteDirectory "string option"
  | GetRemotePwd
  | ListCloudDirectory string string "string option"
  | UploadFile string string
  | UploadCloudFile string string string "string option"
  | CopyToLocal string string

section \<open>Local file tree (FileTree)\<close>

record FileEntry =
  fe_name :: string
  fe_path :: string
  fe_is_dir :: bool
  fe_size :: nat

text \<open>
  \<^verbatim>\<open>TreeNode extends FileEntry\<close> with the optional \<^verbatim>\<open>children\<close>, \<^verbatim>\<open>expanded\<close> and
  \<^verbatim>\<open>loading\<close>. \<open>children = None\<close> is \<^verbatim>\<open>undefined\<close> (not fetched); an array, also the
  empty one, is truthy in JavaScript, so \<^verbatim>\<open>!n.children\<close> is \<open>children n = None\<close>.
  \<^verbatim>\<open>loadDir\<close> always sets the two flags, so they are plain booleans.
\<close>

datatype TreeNode = TreeNode
  (node_name: string) (node_path: string) (node_is_dir: bool) (node_size: nat)
  (children: "TreeNode list option") (expanded: bool) (loading: bool)

record FileTreeState =
  tree :: "TreeNode list"
  currentPath :: string
  error :: "string option"
  searchQuery :: string

definition node_of_entry :: "FileEntry \<Rightarrow> TreeNode" where
  "node_of_entry e = TreeNode (fe_name e) (fe_path e) (fe_is_dir e) (fe_size e) None False False"

text \<open>
  \<^verbatim>\<open>loadDir(path)\<close>: clears the error, awaits \<^verbatim>\<open>list_directory\<close> (outcome \<open>r\<close>) and
  returns the fresh nodes; on failure it sets the error and returns the empty array.
\<close>

definition loadDir ::
  "string \<Rightarrow> string + FileEntry list \<Rightarrow> FileTreeState
     \<Rightarrow> backend_call list \<times> TreeNode list \<times> FileTreeState" where
  "loadDir p r s =
     (case r of
        Inr entries \<Rightarrow> ([ListDirectory p], map node_of_entry entries, s\<lparr>error := None\<rparr>)
      | Inl err \<Rightarrow> ([ListDirectory p], [], s\<lparr>error := Some err\<rparr>))"


text \<open>
  The two local functions of \<^verbatim>\<open>toggleFolder\<close>. \<^verbatim>\<open>nodes.map((n, i) => ...)\<close> is the
  recursion over the list with the running index \<open>i\<close>; the top-level call starts at 0.
\<close>

fun update :: "nat \<Rightarrow> TreeNode list \<Rightarrow> nat list \<Rightarrow> TreeNode list"
  and update_node :: "nat \<Rightarrow> TreeNode \<Rightarrow> nat list \<Rightarrow> TreeNode" where
  "update i [] p = []"
| "update i (n # ns) p = update_node i n p # update (Suc i) ns p"
| "update_node i n p =
     (if length p = 1 \<and> i = hd p
        then TreeNode (node_name n) (node_path n) (node_is_dir n) (node_size n) (children n)
               (\<not> expanded n) (\<not> expanded n \<and> children n = None)
      else if length p > 1 \<and> i = hd p \<and> children n \<noteq> None
        then TreeNode (node_name n) (node_path n) (node_is_dir n) (node_size n)
               (Some (update 0 (the (children n)) (tl p))) (expanded n) (loading n)
      else n)"

fun setChildren :: "TreeNode list \<Rightarrow> nat \<Rightarrow> TreeNode list \<Rightarrow> nat list \<Rightarrow> TreeNode list"
  and setChildren_node :: "TreeNode list \<Rightarrow> nat \<Rightarrow> TreeNode \<Rightarrow> nat list \<Rightarrow> TreeNode" where
  "setChildren cs i [] p = []"
| "setChildren cs i (n # ns) p = setChildren_node cs i n p # setChildren cs (Suc i) ns p"
| "setChildren_node cs i n p =
     (if length p = 1 \<and> i = hd p
        then TreeNode (node_name n) (node_path n) (node_is_dir n) (node_size n) (Some cs) (expanded n) False
      else if length p > 1 \<and> i = hd p \<and> children n \<noteq> None
        then TreeNode (node_name n) (node_path n) (node_is_dir n) (node_size n)
               (Some (setChildren cs 0 (the (children n)) (tl p))) (expanded n) (loading n)
      else n)"

text \<open>
  \<^verbatim>\<open>toggleFolder(node, idx)\<close>, with \<open>r\<close> the outcome of the listing it may await.
  The result is the list of backend calls issued and the state after the handler.
\<close>

definition toggleFolder ::
  "TreeNode \<Rightarrow> nat list \<Rightarrow> string + FileEntry list \<Rightarrow> FileTreeState
     \<Rightarrow> backend_call list \<times> FileTreeState" where
  "toggleFolder node idx r s =
     (let s1 = s\<lparr>tree := update 0 (tree s) idx\<rparr>
      in if \<not> expanded node \<and> children node = None
         then (let (calls, cs, s2) = loadDir (node_path node) r s1
               in (calls, s2\<lparr>tree := setChildren cs 0 (tree s2) idx\<rparr>))
         else ([], s1))"

text \<open>
  The two halves of \<^verbatim>\<open>toggleFolder\<close> around its \<^verbatim>\<open>await\<close>. The first runs with the
  click: it updates the tree and, when the clicked node is collapsed and unfetched,
  clears the error and issues the listing. The second runs when the listing has
  returned: it stores the children, or the error and the empty array, under the same
  index path in the tree as it is by then. Other handlers can run in between.
\<close>

definition toggleFolder_start ::
  "TreeNode \<Rightarrow> nat list \<Rightarrow> FileTreeState \<Rightarrow> backend_call list \<times> FileTreeState" where
  "toggleFolder_start node idx s =
     (let s1 = s\<lparr>tree := update 0 (tree s) idx\<rparr>
      in if \<not> expanded node \<and> children node = None
         then ([ListDirectory (node_path node)], s1\<lparr>error := None\<rparr>)
         else ([], s1))"

definition toggleFolder_resume ::
  "nat list \<Rightarrow> string + FileEntry list \<Rightarrow> FileTreeState \<Rightarrow> FileTreeState" where
  "toggleFolder_resume idx r s =
     (case r of
        Inr entries \<Rightarrow> s\<lparr>tree := setChildren (map node_of_entry entries) 0 (tree s) idx\<rparr>
      | Inl err \<Rightarrow> s\<lparr>error := Some err, tree := setChildren [] 0 (tree s) idx\<rparr>)"

text \<open>
  \<^verbatim>\<open>filteredTree\<close> and \<^verbatim>\<open>visibleNodes\<close>: the search filters the top level of the tree.
\<close>

definition filteredTree :: "FileTreeState \<Rightarrow> TreeNode list" where
  "filteredTree s =
     filter (\<lambda>node. includes_str (toLowerCase (node_name node)) (toLowerCase (searchQuery s))) (tree s)"

definition visibleNodes :: "FileTreeState \<Rightarrow> TreeNode list" where
  "visibleNodes s = (if searchQuery s \<noteq> [] then filteredTree s else tree s)"

text \<open>
  The node that \<^verbatim>\<open>renderNodes\<close> shows under an index path of the list it is given: the
  rows of children exist only below a node that is expanded and whose \<^verbatim>\<open>children\<close> are
  present.
\<close>

fun node_at :: "TreeNode list \<Rightarrow> nat list \<Rightarrow> TreeNode option" where
  "node_at ns [] = None"
| "node_at ns [i] = (if i < length ns then Some (ns ! i) else None)"
| "node_at ns (i # j # p) =
     (if i < length ns \<and> expanded (ns ! i)
      then (case children (ns ! i) of Some cs \<Rightarrow> node_at cs (j # p) | None \<Rightarrow> None)
      else None)"

text \<open>
  A click on the row at \<open>idx\<close>: \<^verbatim>\<open>renderNodes(visibleNodes)\<close> gives the row its node and
  its index path in the list shown, and the click is
  \<^verbatim>\<open>node.is_dir && toggleFolder(node, path)\<close>. \<open>toggle_run\<close> is a series of such clicks
  on one row in which every handler has finished before the next click; \<open>rs\<close> holds the
  outcome of the listing for each click, used when that click fetches. \<open>start_run\<close> is
  a series of clicks on one row made while the listings are still awaited: only the
  first halves of the handlers run.
\<close>

fun toggle_run ::
  "nat list \<Rightarrow> (string + FileEntry list) list \<Rightarrow> FileTreeState \<Rightarrow> backend_call list \<times> FileTreeState" where
  "toggle_run idx [] s = ([], s)"
| "toggle_run idx (r # rs) s =
     (case node_at (visibleNodes s) idx of
        None \<Rightarrow> ([], s)
      | Some n \<Rightarrow>
          (if node_is_dir n
           then (let (c1, s1) = toggleFolder n idx r s;
                     (c2, s2) = toggle_run idx rs s1
                 in (c1 @ c2, s2))
           else ([], s)))"

fun start_run :: "nat list \<Rightarrow> nat \<Rightarrow> FileTreeState \<Rightarrow> backend_call list \<times> FileTreeState" where
  "start_run idx 0 s = ([], s)"
| "start_run idx (Suc k) s =
     (case node_at (visibleNodes s) idx of
        None \<Rightarrow> ([], s)
      | Some n \<Rightarrow>
          (if node_is_dir n
           then (let (c1, s1) = toggleFolder_start n idx s;
                     (c2, s2) = start_run idx k s1
                 in (c1 @ c2, s2))
           else ([], s)))"

text \<open>
  The same two updates said with list update: the node under the index path is replaced
  by its image under \<open>f\<close>, the nodes above it get the new child list, and every other
  node of the tree stays as it is. An index path that names no node changes nothing.
\<close>

fun modify_at :: "(TreeNode \<Rightarrow> TreeNode) \<Rightarrow> TreeNode list \<Rightarrow> nat list \<Rightarrow> TreeNode list" where
  "modify_at f ns [] = ns"
| "modify_at f ns [i] = (if i < length ns then ns[i := f (ns ! i)] else ns)"
| "modify_at f ns (i # j # p) =
     (if i < length ns
      then (case children (ns ! i) of
              None \<Rightarrow> ns
            | Some cs \<Rightarrow>
                ns[i := TreeNode (node_name (ns ! i)) (node_path (ns ! i)) (node_is_dir (ns ! i)) (node_size (ns ! i))
                          (Some (modify_at f cs (j # p))) (expanded (ns ! i)) (loading (ns ! i))])
      else ns)"

definition flip_node :: "TreeNode \<Rightarrow> TreeNode" where
  "flip_node n =
     TreeNode (node_name n) (node_path n) (node_is_dir n) (node_size n) (children n)
       (\<not> expanded n) (\<not> expanded n \<and> children n = None)"

definition with_children :: "TreeNode list \<Rightarrow> TreeNode \<Rightarrow> TreeNode" where
  "with_children cs n =
     TreeNode (node_name n) (node_path n) (node_is_dir n) (node_size n) (Some cs) (expanded n) False"

section \<open>Icon cache (getFileIcon)\<close>

text \<open>
  \<^verbatim>\<open>filename.match(/\.([^.]+)$/)\<close>: the text after the last dot, when there is a dot and
  that text is not empty.
\<close>

definition file_ext :: "string \<Rightarrow> string option" where
  "file_ext filename =
     (let suffix = rev (takeWhile (\<lambda>c. c \<noteq> CHR ''.'') (rev filename))
      in if CHR ''.'' \<in> set filename \<and> suffix \<noteq> [] then Some suffix else None)"

text \<open>
  \<^verbatim>\<open>iconCache\<close> is a plain object: \<^verbatim>\<open>iconCache[ext]\<close> is the value the cache holds for
  \<open>ext\<close> or, when it holds none, what the object inherits under that name. The
  extension is in lower case, and the inherited names without a capital letter are
  \<^verbatim>\<open>constructor\<close> and \<^verbatim>\<open>__proto__\<close>; under them the read gives the inherited member, which
  is not \<^verbatim>\<open>undefined\<close>.
\<close>

definition inherited_key :: "string \<Rightarrow> bool" where
  "inherited_key k = (k = ''constructor'' \<or> k = ''__proto__'')"

datatype icon_value = IconNull | IconString string | IconInherited string

text \<open>
  \<^verbatim>\<open>getFileIcon(filename)\<close> over the cache \<^verbatim>\<open>iconCache\<close>, with \<open>r\<close> the outcome of
  \<^verbatim>\<open>get_file_icon\<close> when it is awaited. The result is the calls issued, the cache after
  the handler and the returned value. A failed lookup stores the empty string.
\<close>

definition getFileIcon ::
  "string \<Rightarrow> string + string \<Rightarrow> (string \<rightharpoonup> string)
     \<Rightarrow> backend_call list \<times> (string \<rightharpoonup> string) \<times> icon_value" where
  "getFileIcon filename r iconCache =
     (case file_ext filename of
        None \<Rightarrow> ([], iconCache, IconNull)
      | Some e \<Rightarrow>
          (let ext = toLowerCase e
           in case iconCache ext of
                Some icon \<Rightarrow> ([], iconCache, IconString icon)
              | None \<Rightarrow>
                  (if inherited_key ext then ([], iconCache, IconInherited ext)
                   else
                     (case r of
                        Inr base64Icon \<Rightarrow>
                          ([GetFileIcon ext], iconCache(ext \<mapsto> base64Icon), IconString base64Icon)
                      | Inl err \<Rightarrow> ([GetFileIcon ext], iconCache(ext \<mapsto> []), IconNull)))))"

text \<open>
  The two halves of \<^verbatim>\<open>getFileIcon\<close> around its \<^verbatim>\<open>await\<close>: the first reads the cache of
  the render it was created in and issues the lookup; the second, when the lookup has
  returned, stores the icon or the empty string in the cache as it is by then.
\<close>

definition getFileIcon_start :: "string \<Rightarrow> (string \<rightharpoonup> string) \<Rightarrow> backend_call list" where
  "getFileIcon_start filename iconCache =
     (case file_ext filename of
        None \<Rightarrow> []
      | Some e \<Rightarrow>
          (let ext = toLowerCase e
           in if iconCache ext \<noteq> None \<or> inherited_key ext then [] else [GetFileIcon ext]))"

definition getFileIcon_resume ::
  "string \<Rightarrow> string + string \<Rightarrow> (string \<rightharpoonup> string) \<Rightarrow> (string \<rightharpoonup> string)" where
  "getFileIcon_resume ext r iconCache =
     (case r of
        Inr base64Icon \<Rightarrow> iconCache(ext \<mapsto> base64Icon)
      | Inl err \<Rightarrow> iconCache(ext \<mapsto> []))"

text \<open>
  One render of the file rows: every \<^verbatim>\<open>FileIconRenderer\<close> reads \<^verbatim>\<open>iconCache[ext]\<close> of that
  render and, when the file has an extension and the read gives \<^verbatim>\<open>undefined\<close>, its effect
  calls \<^verbatim>\<open>getFileIcon(filename)\<close>, which reads the same cache. The lookups are all issued
  before any of them returns.
\<close>

definition icon_effects :: "string list \<Rightarrow> (string \<rightharpoonup> string) \<Rightarrow> backend_call list" where
  "icon_effects filenames iconCache =
     concat
       (map (\<lambda>filename.
               case file_ext filename of
                 None \<Rightarrow> []
               | Some e \<Rightarrow>
                   (if iconCache (toLowerCase e) = None \<and> \<not> inherited_key (toLowerCase e)
                    then getFileIcon_start filename iconCache
                    else []))
          filenames)"

text \<open>
  Resolves that follow one another on one tree instance, each finished before the next
  starts.
\<close>

fun icon_run ::
  "(string \<times> (string + string)) list \<Rightarrow> (string \<rightharpoonup> string)
     \<Rightarrow> backend_call list \<times> (string \<rightharpoonup> string)" where
  "icon_run [] iconCache = ([], iconCache)"
| "icon_run ((filename, r) # reqs) iconCache =
     (let (c1, cache1, icon) = getFileIcon filename r iconCache;
          (c2, cache2) = icon_run reqs cache1
      in (c1 @ c2, cache2))"

section \<open>Remote file tree (RemoteFileTree)\<close>

record RemoteEntry =
  re_name :: string
  re_is_dir :: bool
  re_size :: "nat option"
  re_last_modified :: "string option"
  re_id :: "string option"

record PathEntry =
  pe_id :: string
  pe_name :: string

record RemoteTreeState =
  entries :: "RemoteEntry list"
  remote_searchQuery :: string
  remotePath :: string
  pathStack :: "PathEntry list"
  remote_error :: "string option"
  remote_loading :: bool

text \<open>An optional string is truthy when it is present and not empty.\<close>

definition truthy :: "string option \<Rightarrow> bool" where
  "truthy x = (x \<noteq> None \<and> x \<noteq> Some [])"

fun join :: "string \<Rightarrow> string list \<Rightarrow> string" where
  "join sep [] = []"
| "join sep [x] = x"
| "join sep (x # y # ys) = x @ sep @ join sep (y # ys)"

text \<open>
  \<^verbatim>\<open>loadRemoteDir(path?, dirName?)\<close>. \<open>cloudConfig\<close> is the component's property (the
  App reads the token of a cloud connection as \<^verbatim>\<open>access_token\<close>); \<open>list_r\<close> is the
  outcome of the listing and \<open>pwd_r\<close> that of \<^verbatim>\<open>get_remote_pwd\<close>, which only the FTP
  branch awaits, after a listing that succeeded. The new path is also handed to the
  App through \<^verbatim>\<open>onPathChange\<close>, where it becomes \<^verbatim>\<open>currentRemotePath\<close>.
\<close>

definition loadRemoteDir ::
  "CloudConnection option \<Rightarrow> string option \<Rightarrow> string option
     \<Rightarrow> string + RemoteEntry list \<Rightarrow> string + string \<Rightarrow> RemoteTreeState
     \<Rightarrow> backend_call list \<times> RemoteTreeState" where
  "loadRemoteDir cloudConfig path dirName list_r pwd_r s =
     (let s0 = s\<lparr>remote_loading := True, remote_error := None\<rparr>;
          failed = (\<lambda>err. s0\<lparr>remote_error := Some err, entries := [], remote_loading := False\<rparr>)
      in case cloudConfig of
           Some c \<Rightarrow>
             (let isUp = (path = Some ''..'');
                  folderId =
                    (if isUp
                     then (if length (pathStack s) > 1
                           then Some (pe_id (pathStack s ! (length (pathStack s) - 2)))
                           else None)
                     else path);
                  calls = [ListCloudDirectory (provider c) (token c) folderId]
              in case list_r of
                   Inl err \<Rightarrow> (calls, failed err)
                 | Inr files \<Rightarrow>
                     (let nextStack =
                            (if isUp then butlast (pathStack s)
                             else if truthy path \<and> truthy dirName
                               then pathStack s @ [\<lparr>pe_id = the path, pe_name = the dirName\<rparr>]
                             else if \<not> truthy path then []
                             else pathStack s);
                          pwd =
                            (if nextStack = [] then ''/ (Cloud Root)''
                             else ''Root / '' @ join '' / '' (map pe_name nextStack))
                      in (calls,
                          s0\<lparr>pathStack := nextStack, entries := files, remotePath := pwd,
                             remote_loading := False\<rparr>)))
         | None \<Rightarrow>
             (case list_r of
                Inl err \<Rightarrow> ([ListRemoteDirectory path], failed err)
              | Inr files \<Rightarrow>
                  (case pwd_r of
                     Inl err \<Rightarrow> ([ListRemoteDirectory path, GetRemotePwd], failed err)
                   | Inr pwd \<Rightarrow>
                       ([ListRemoteDirectory path, GetRemotePwd],
                        s0\<lparr>entries := files, remotePath := pwd, remote_loading := False\<rparr>))))"

definition navigateTo ::
  "CloudConnection option \<Rightarrow> RemoteEntry \<Rightarrow> string + RemoteEntry list \<Rightarrow> string + string
     \<Rightarrow> RemoteTreeState \<Rightarrow> backend_call list \<times> RemoteTreeState" where
  "navigateTo cloudConfig entry list_r pwd_r s =
     (if cloudConfig \<noteq> None
      then (if truthy (re_id entry)
            then loadRemoteDir cloudConfig (re_id entry) (Some (re_name entry)) list_r pwd_r s
            else ([], s))
      else loadRemoteDir cloudConfig (Some (re_name entry)) None list_r pwd_r s)"

definition goUp ::
  "CloudConnection option \<Rightarrow> string + RemoteEntry list \<Rightarrow> string + string
     \<Rightarrow> RemoteTreeState \<Rightarrow> backend_call list \<times> RemoteTreeState" where
  "goUp cloudConfig list_r pwd_r s = loadRemoteDir cloudConfig (Some ''..'') None list_r pwd_r s"


section \<open>Drops and the transfer log\<close>

text \<open>
  What a drop handler does, in order: a line appended to the transfer log
  (\<^verbatim>\<open>onTransferMsg\<close>, \<^verbatim>\<open>setTransferMsgs\<close>), a backend call that is awaited, the reload
  of the pane's own listing that ends a pane's handler, and the increment of the App's
  \<^verbatim>\<open>refreshKey\<close> that ends the native listener.
\<close>

datatype effect =
    TransferMsg string
  | Invoke backend_call
  | Refresh
  | BumpRefreshKey

definition logged :: "effect list \<Rightarrow> string list" where
  "logged es = concat (map (\<lambda>e. case e of TransferMsg m \<Rightarrow> [m] | _ \<Rightarrow> []) es)"

definition invoked :: "effect list \<Rightarrow> backend_call list" where
  "invoked es = concat (map (\<lambda>e. case e of Invoke c \<Rightarrow> [c] | _ \<Rightarrow> []) es)"

text \<open>The two characters outside ASCII of the messages, in UTF-8.\<close>

definition ellipsis :: string where
  "ellipsis = [CHR 0xE2, CHR 0x80, CHR 0xA6]"

definition em_dash :: string where
  "em_dash = [CHR 0xE2, CHR 0x80, CHR 0x94]"

fun string_of_nat :: "nat \<Rightarrow> string" where
  "string_of_nat n =
     (if n < 10 then [''0123456789'' ! n]
      else string_of_nat (n div 10) @ [''0123456789'' ! (n mod 10)])"

declare string_of_nat.simps [simp del]

text \<open>
  A dropped \<^verbatim>\<open>File\<close>: its name and the \<^verbatim>\<open>path\<close> the webview may attach to it. Each file
  comes with the outcome of the backend call made for it, unused when none is made.
\<close>

record DroppedFile =
  df_name :: string
  df_path :: "string option"

text \<open>\<^verbatim>\<open>handleDrop\<close> of RemoteFileTree: the loop, then the handler.\<close>

fun upload_each ::
  "CloudConnection option \<Rightarrow> string \<Rightarrow> (DroppedFile \<times> (string + string)) list \<Rightarrow> effect list" where
  "upload_each cloudConfig rpath [] = []"
| "upload_each cloudConfig rpath ((file, r) # rest) =
     (if \<not> truthy (df_path file)
      then [TransferMsg (''Cannot upload '' @ df_name file @ '' '' @ em_dash @ '' no path available'')]
      else [TransferMsg (''Uploading '' @ df_name file @ ellipsis),
            Invoke
              (case cloudConfig of
                 Some c \<Rightarrow>
                   UploadCloudFile (provider c) (token c) (the (df_path file))
                     (if rpath = ''/ (Cloud Root)'' \<or> rpath = [] then None else Some rpath)
               | None \<Rightarrow> UploadFile (the (df_path file)) (df_name file)),
            (case r of
               Inr result \<Rightarrow> TransferMsg result
             | Inl err \<Rightarrow> TransferMsg (''Upload error: '' @ err))])
     @ upload_each cloudConfig rpath rest"

definition handleDrop_remote ::
  "CloudConnection option \<Rightarrow> string \<Rightarrow> (DroppedFile \<times> (string + string)) list \<Rightarrow> effect list" where
  "handleDrop_remote cloudConfig rpath files =
     [TransferMsg ''DEBUG: Remote handleDrop event detected'',
      TransferMsg (''DEBUG: Remote files count: '' @ string_of_nat (length files))]
     @ (if files = [] then [] else upload_each cloudConfig rpath files @ [Refresh])"

text \<open>
  What the loop of the remote pane does for one file: nothing but a line when the file
  has no path, else the line, the upload and the line of its outcome.
\<close>

definition upload_call :: "CloudConnection option \<Rightarrow> string \<Rightarrow> DroppedFile \<Rightarrow> backend_call" where
  "upload_call cloudConfig rpath file =
     (case cloudConfig of
        Some c \<Rightarrow>
          UploadCloudFile (provider c) (token c) (the (df_path file))
            (if rpath = ''/ (Cloud Root)'' \<or> rpath = [] then None else Some rpath)
      | None \<Rightarrow> UploadFile (the (df_path file)) (df_name file))"

definition upload_lines :: "DroppedFile \<times> (string + string) \<Rightarrow> string list" where
  "upload_lines fr =
     (if \<not> truthy (df_path (fst fr))
      then [''Cannot upload '' @ df_name (fst fr) @ '' '' @ em_dash @ '' no path available'']
      else [''Uploading '' @ df_name (fst fr) @ ellipsis,
            (case snd fr of Inr result \<Rightarrow> result | Inl err \<Rightarrow> ''Upload error: '' @ err)])"

definition upload_effects ::
  "CloudConnection option \<Rightarrow> string \<Rightarrow> DroppedFile \<times> (string + string) \<Rightarrow> effect list" where
  "upload_effects cloudConfig rpath fr =
     (if \<not> truthy (df_path (fst fr)) then map TransferMsg (upload_lines fr)
      else [TransferMsg (upload_lines fr ! 0), Invoke (upload_call cloudConfig rpath (fst fr)),
            TransferMsg (upload_lines fr ! 1)])"

definition has_path :: "DroppedFile \<times> (string + string) \<Rightarrow> bool" where
  "has_path fr = truthy (df_path (fst fr))"

text \<open>\<^verbatim>\<open>handleDrop\<close> of FileTree.\<close>

fun copy_each :: "string \<Rightarrow> (DroppedFile \<times> (string + string)) list \<Rightarrow> effect list" where
  "copy_each cpath [] = []"
| "copy_each cpath ((file, r) # rest) =
     (if \<not> truthy (df_path file)
      then [TransferMsg (''Cannot copy '' @ df_name file @ '' '' @ em_dash @ '' no path available'')]
      else [TransferMsg (''Copying '' @ df_name file @ '' to local folder'' @ ellipsis),
            Invoke (CopyToLocal (the (df_path file)) cpath),
            (case r of
               Inr result \<Rightarrow> TransferMsg result
             | Inl err \<Rightarrow> TransferMsg (''Local Copy error: '' @ err))])
     @ copy_each cpath rest"

definition handleDrop_local :: "string \<Rightarrow> (DroppedFile \<times> (string + string)) list \<Rightarrow> effect list" where
  "handleDrop_local cpath files =
     [TransferMsg ''DEBUG: Local handleDrop event detected'',
      TransferMsg (''DEBUG: Local files count: '' @ string_of_nat (length files))]
     @ (if files = [] then [] else copy_each cpath files @ [Refresh])"

section \<open>The App: connection state and the native drop listener\<close>

record AppContext =
  connectionStatus :: string
  selectedConnId :: "string option"
  app_config :: AppConfig
  homePath :: string
  currentRemotePath :: string

text \<open>The status the App starts with, before any connection is made.\<close>

definition initial_connectionStatus :: string where
  "initial_connectionStatus = ''Not Connected''"

definition selectedFtpConn :: "AppContext \<Rightarrow> FtpConnection option" where
  "selectedFtpConn ctx =
     find (\<lambda>c. Some (ftp_id c) = selectedConnId ctx) (ftp_connections (app_config ctx))"

definition selectedCloudConn :: "AppContext \<Rightarrow> CloudConnection option" where
  "selectedCloudConn ctx =
     find (\<lambda>c. Some (cloud_id c) = selectedConnId ctx) (cloud_connections (app_config ctx))"

definition isRemoteConnected :: "AppContext \<Rightarrow> bool" where
  "isRemoteConnected ctx =
     ((includes_str (connectionStatus ctx) ''connected'' \<or>
       includes_str (connectionStatus ctx) ''Connected'') \<and>
      (selectedFtpConn ctx \<noteq> None \<or> selectedCloudConn ctx \<noteq> None))"

text \<open>\<^verbatim>\<open>filePath.split(/[\\/]/).pop() || "unknown"\<close>\<close>

definition fileName_of :: "string \<Rightarrow> string" where
  "fileName_of filePath =
     (let seg = rev (takeWhile (\<lambda>c. c \<noteq> CHR ''/'' \<and> c \<noteq> CHR 0x5C) (rev filePath))
      in if seg = [] then ''unknown'' else seg)"

text \<open>The \<^verbatim>\<open>tauri://drag-drop\<close> listener: the loop over the dropped paths, then the listener.\<close>

fun drop_each :: "AppContext \<Rightarrow> (string \<times> (string + string)) list \<Rightarrow> effect list" where
  "drop_each ctx [] = []"
| "drop_each ctx ((filePath, r) # rest) =
     (if isRemoteConnected ctx
      then [TransferMsg (''Uploading '' @ fileName_of filePath @ '' to remote'' @ ellipsis),
            Invoke
              (case selectedCloudConn ctx of
                 Some c \<Rightarrow>
                   UploadCloudFile (provider c) (token c) filePath
                     (if currentRemotePath ctx = ''/ (Cloud Root)'' \<or> currentRemotePath ctx = []
                      then None else Some (currentRemotePath ctx))
               | None \<Rightarrow> UploadFile filePath (fileName_of filePath))]
      else [TransferMsg (''Copying '' @ fileName_of filePath @ '' to local'' @ ellipsis),
            Invoke (CopyToLocal filePath (homePath ctx))])
     @ [case r of
          Inr result \<Rightarrow> TransferMsg result
        | Inl err \<Rightarrow> TransferMsg (''Drop Error: '' @ err)]
     @ drop_each ctx rest"

definition dragDrop :: "AppContext \<Rightarrow> (string \<times> (string + string)) list \<Rightarrow> effect list" where
  "dragDrop ctx paths = (if paths = [] then [] else drop_each ctx paths @ [BumpRefreshKey])"

section \<open>Transfer progress events\<close>

record TransferProgress =
  transfer_id :: string
  filename :: string
  progress :: nat
  total :: nat
  status :: string

text \<open>
  The App's \<^verbatim>\<open>activeTransfers\<close> and \<^verbatim>\<open>refreshKey\<close>, with the clock in milliseconds and
  the callbacks that \<^verbatim>\<open>setTimeout\<close> has pending: the time each is due and the transfer
  it deletes.
\<close>

record TransferState =
  activeTransfers :: "string \<rightharpoonup> TransferProgress"
  refreshKey :: nat
  timers :: "(nat \<times> string) list"
  now :: nat

definition removal_delay :: nat where
  "removal_delay = 5000"

text \<open>The \<^verbatim>\<open>transfer-progress\<close> listener.\<close>

definition onTransferProgress :: "TransferProgress \<Rightarrow> TransferState \<Rightarrow> TransferState" where
  "onTransferProgress p s =
     (if status p = ''complete''
      then s\<lparr>refreshKey := refreshKey s + 1,
             activeTransfers := (activeTransfers s)(transfer_id p \<mapsto> p),
             timers := timers s @ [(now s + removal_delay, transfer_id p)]\<rparr>
      else s\<lparr>activeTransfers := (activeTransfers s)(transfer_id p \<mapsto> p)\<rparr>)"

text \<open>
  The clock reaches \<open>t\<close>: every pending callback due by then runs (it deletes its
  transfer from the map) and leaves the pending list.
\<close>

fun run_timers :: "string list \<Rightarrow> (string \<rightharpoonup> TransferProgress) \<Rightarrow> (string \<rightharpoonup> TransferProgress)" where
  "run_timers [] m = m"
| "run_timers (i # ids) m = run_timers ids (m(i := None))"

definition advance_to :: "nat \<Rightarrow> TransferState \<Rightarrow> TransferState" where
  "advance_to t s =
     s\<lparr>now := max (now s) t,
       activeTransfers :=
         run_timers (map snd (filter (\<lambda>(due, i). due \<le> t) (timers s))) (activeTransfers s),
       timers := filter (\<lambda>(due, i). \<not> due \<le> t) (timers s)\<rparr>"

text \<open>
  Events as they are delivered: each arrives at a time of the clock, after the callbacks
  due by then have run.
\<close>

fun deliver :: "(nat \<times> TransferProgress) list \<Rightarrow> TransferState \<Rightarrow> TransferState" where
  "deliver [] s = s"
| "deliver ((t, p) # evs) s = deliver evs (onTransferProgress p (advance_to t s))"

text \<open>
  The invariant behind the removal: the transfer \<open>i\<close> is gone from the map, or a callback
  that deletes it is pending and due by \<open>d\<close>.
\<close>

definition removal_pending :: "nat \<Rightarrow> string \<Rightarrow> TransferState \<Rightarrow> bool" where
  "removal_pending d i u =
     (activeTransfers u i = None \<or> (\<exists>due. due \<le> d \<and> (due, i) \<in> set (timers u)))"

section \<open>Example states\<close>

text \<open>Concrete inputs on which the properties below are evaluated.\<close>

definition dirA :: TreeNode where
  "dirA = TreeNode ''docs'' ''/home/u/docs'' True 0 None False False"

definition fileB :: TreeNode where
  "fileB = TreeNode ''Readme.txt'' ''/home/u/Readme.txt'' False 120 None False False"

definition dirC :: TreeNode where
  "dirC = TreeNode ''src'' ''/home/u/src'' True 0 (Some [fileB]) True False"

definition local_example :: FileTreeState where
  "local_example = \<lparr>tree = [dirA, fileB, dirC], currentPath = ''/home/u'', error = None, searchQuery = []\<rparr>"

definition remote_example :: RemoteTreeState where
  "remote_example =
     \<lparr>entries = [\<lparr>re_name = ''a.txt'', re_is_dir = False, re_size = Some 3,
                   re_last_modified = None, re_id = Some ''id-a''\<rparr>],
      remote_searchQuery = [], remotePath = ''Root / photos'',
      pathStack = [\<lparr>pe_id = ''id-photos'', pe_name = ''photos''\<rparr>],
      remote_error = None, remote_loading = False\<rparr>"

definition cloud_example :: CloudConnection where
  "cloud_example = \<lparr>cloud_id = ''c1'', provider = ''google'', account_name = ''me'', token = ''tok''\<rparr>"





definition complete_t1 :: TransferProgress where
  "complete_t1 =
     \<lparr>transfer_id = ''t1'', filename = ''a.bin'', progress = 10, total = 10, status = ''complete''\<rparr>"

definition progress_t1 :: TransferProgress where
  "progress_t1 =
     \<lparr>transfer_id = ''t1'', filename = ''a.bin'', progress = 4, total = 10, status = ''in-progress''\<rparr>"

definition progress_t2 :: TransferProgress where
  "progress_t2 =
     \<lparr>transfer_id = ''t2'', filename = ''b.bin'', progress = 1, total = 7, status = ''in-progress''\<rparr>"

definition idle_transfers :: TransferState where
  "idle_transfers = \<lparr>activeTransfers = Map.empty, refreshKey = 0, timers = [], now = 100\<rparr>"

definition three_drops :: "(DroppedFile \<times> (string + string)) list" where
  "three_drops =
     [(\<lparr>df_name = ''a.txt'', df_path = Some ''/home/u/a.txt''\<rparr>, Inr ''Uploaded a.txt''),
      (\<lparr>df_name = ''b.txt'', df_path = Some ''/home/u/b.txt''\<rparr>, Inl ''550 Permission denied''),
      (\<lparr>df_name = ''c.txt'', df_path = Some ''/home/u/c.txt''\<rparr>, Inr ''Uploaded c.txt'')]"

definition ftp_example :: FtpConnection where
  "ftp_example =
     \<lparr>ftp_id = ''1'', ftp_name = ''server'', host = ''ftp.example.com'', port = 21,
      username = ''admin'', password = None, secure = None\<rparr>"

definition not_connected_example :: AppContext where
  "not_connected_example =
     \<lparr>connectionStatus = initial_connectionStatus, selectedConnId = Some ''1'',
      app_config = \<lparr>ftp_connections = [ftp_example], cloud_connections = []\<rparr>,
      homePath = ''/home/u'', currentRemotePath = ''/''\<rparr>"

definition search_docs_example :: FileTreeState where
  "search_docs_example =
     \<lparr>tree = [fileB, dirA], currentPath = ''/home/u'', error = None, searchQuery = ''docs''\<rparr>"

section \<open>Verified properties\<close>

subsection \<open>The index path\<close>

declare update_node.simps [simp del] setChildren_node.simps [simp del]

lemma length_update: "length (update i ns p) = length ns"
  by (induction ns arbitrary: i) simp_all

lemma nth_update: "k < length ns \<Longrightarrow> update i ns p ! k = update_node (i + k) (ns ! k) p"
proof (induction ns arbitrary: i k)
  case Nil
  then show ?case by simp
next
  case (Cons n ns)
  then show ?case by (cases k) simp_all
qed

lemma length_setChildren: "length (setChildren cs i ns p) = length ns"
  by (induction ns arbitrary: i) simp_all

lemma nth_setChildren:
  "k < length ns \<Longrightarrow> setChildren cs i ns p ! k = setChildren_node cs (i + k) (ns ! k) p"
proof (induction ns arbitrary: i k)
  case Nil
  then show ?case by simp
next
  case (Cons n ns)
  then show ?case by (cases k) simp_all
qed

lemma update_eq_modify_at: "update 0 ns p = modify_at flip_node ns p"
proof (induction flip_node ns p rule: modify_at.induct)
  case (1 ns)
  show ?case
    by (rule nth_equalityI) (simp_all add: length_update nth_update update_node.simps)
next
  case (2 ns i)
  show ?case
    by (rule nth_equalityI)
       (auto simp: length_update nth_update update_node.simps flip_node_def nth_list_update)
next
  case (3 ns i j p)
  show ?case
  proof (rule nth_equalityI)
    show "length (update 0 ns (i # j # p)) = length (modify_at flip_node ns (i # j # p))"
      by (simp add: length_update split: option.splits)
  next
    fix k assume "k < length (update 0 ns (i # j # p))"
    then have k: "k < length ns" by (simp add: length_update)
    show "update 0 ns (i # j # p) ! k = modify_at flip_node ns (i # j # p) ! k"
      using k 3
      by (auto simp: nth_update update_node.simps nth_list_update split: option.splits)
  qed
qed

lemma setChildren_eq_modify_at: "setChildren cs 0 ns p = modify_at (with_children cs) ns p"
proof (induction "with_children cs" ns p rule: modify_at.induct)
  case (1 ns)
  show ?case
    by (rule nth_equalityI) (simp_all add: length_setChildren nth_setChildren setChildren_node.simps)
next
  case (2 ns i)
  show ?case
    by (rule nth_equalityI)
       (auto simp: length_setChildren nth_setChildren setChildren_node.simps with_children_def
          nth_list_update)
next
  case (3 ns i j p)
  show ?case
  proof (rule nth_equalityI)
    show "length (setChildren cs 0 ns (i # j # p)) =
          length (modify_at (with_children cs) ns (i # j # p))"
      by (simp add: length_setChildren split: option.splits)
  next
    fix k assume "k < length (setChildren cs 0 ns (i # j # p))"
    then have k: "k < length ns" by (simp add: length_setChildren)
    show "setChildren cs 0 ns (i # j # p) ! k = modify_at (with_children cs) ns (i # j # p) ! k"
      using k 3
      by (auto simp: nth_setChildren setChildren_node.simps nth_list_update split: option.splits)
  qed
qed

lemma modify_at_compose: "modify_at g (modify_at f ns p) p = modify_at (\<lambda>n. g (f n)) ns p"
proof (induction f ns p rule: modify_at.induct)
  case (1 f ns)
  show ?case by simp
next
  case (2 f ns i)
  show ?case by simp
next
  case (3 f ns i j p)
  then show ?case by (auto split: option.splits)
qed

lemma node_at_modify_at:
  "node_at ns p = Some n \<Longrightarrow> node_at (modify_at f ns p) p = Some (f n)"
proof (induction ns p rule: node_at.induct)
  case (1 ns)
  then show ?case by simp
next
  case (2 ns i)
  then show ?case by (auto split: if_splits)
next
  case (3 ns i j p)
  then show ?case by (auto split: if_splits option.splits)
qed

subsection \<open>One toggle\<close>

lemma toggleFolder_no_fetch:
  "children m \<noteq> None \<or> expanded m \<Longrightarrow>
   toggleFolder m idx r s = ([], s\<lparr>tree := modify_at flip_node (tree s) idx\<rparr>)"
  by (auto simp: toggleFolder_def update_eq_modify_at)

lemma toggleFolder_fetch:
  "\<not> expanded m \<Longrightarrow> children m = None \<Longrightarrow>
   toggleFolder m idx r s =
     ([ListDirectory (node_path m)],
      s\<lparr>tree := modify_at
                  (\<lambda>n. with_children (case r of Inr es \<Rightarrow> map node_of_entry es | Inl e \<Rightarrow> [])
                         (flip_node n))
                  (tree s) idx,
        error := (case r of Inr es \<Rightarrow> None | Inl e \<Rightarrow> Some e)\<rparr>)"
  by (cases r)
     (simp_all add: toggleFolder_def loadDir_def update_eq_modify_at setChildren_eq_modify_at
        modify_at_compose)

lemma toggleFolder_two_halves:
  "toggleFolder m idx r s =
     (if \<not> expanded m \<and> children m = None
      then (fst (toggleFolder_start m idx s),
            toggleFolder_resume idx r (snd (toggleFolder_start m idx s)))
      else toggleFolder_start m idx s)"
  by (cases r) (simp_all add: toggleFolder_def toggleFolder_start_def toggleFolder_resume_def
      loadDir_def Let_def)

lemma toggleFolder_start_calls: "fst (toggleFolder_start m idx s) = fst (toggleFolder m idx r s)"
  by (simp add: toggleFolder_two_halves toggleFolder_start_def Let_def)

lemma toggleFolder_tree:
  "\<exists>g. (\<forall>m. node_name (g m) = node_name m) \<and>
       tree (snd (toggleFolder n idx r s)) = modify_at g (tree s) idx \<and>
       searchQuery (snd (toggleFolder n idx r s)) = searchQuery s"
proof (cases "children n \<noteq> None \<or> expanded n")
  case True
  then show ?thesis
    by (intro exI [of _ flip_node]) (simp add: toggleFolder_no_fetch flip_node_def)
next
  case False
  then show ?thesis
    by (intro exI [of _ "\<lambda>m. with_children
          (case r of Inr es \<Rightarrow> map node_of_entry es | Inl e \<Rightarrow> []) (flip_node m)"])
       (simp add: toggleFolder_fetch flip_node_def with_children_def)
qed

lemma names_modify_at:
  "\<forall>m. node_name (g m) = node_name m \<Longrightarrow> map node_name (modify_at g ns p) = map node_name ns"
proof (induction g ns p rule: modify_at.induct)
  case (1 f ns)
  show ?case by simp
next
  case (2 f ns i)
  then show ?case by (simp add: map_update list_update_same_conv)
next
  case (3 f ns i j p)
  then show ?case by (simp add: map_update list_update_same_conv split: option.splits)
qed

lemma visibleNodes_names:
  "visibleNodes s = tree s \<longleftrightarrow>
     searchQuery s = [] \<or>
     (\<forall>nm \<in> set (map node_name (tree s)).
        includes_str (toLowerCase nm) (toLowerCase (searchQuery s)))"
  by (auto simp: visibleNodes_def filteredTree_def filter_id_conv)

lemma visibleNodes_toggleFolder:
  assumes "visibleNodes s = tree s"
  shows "visibleNodes (snd (toggleFolder n idx r s)) = tree (snd (toggleFolder n idx r s))"
proof -
  obtain g where g: "\<forall>m. node_name (g m) = node_name m"
      "tree (snd (toggleFolder n idx r s)) = modify_at g (tree s) idx"
      "searchQuery (snd (toggleFolder n idx r s)) = searchQuery s"
    using toggleFolder_tree by blast
  have "map node_name (tree (snd (toggleFolder n idx r s))) = map node_name (tree s)"
    using g by (simp add: names_modify_at)
  then show ?thesis
    using assms g(3) by (simp only: visibleNodes_names)
qed

lemma toggleFolder_children_present:
  assumes "node_at (tree s) idx = Some n" and "children n \<noteq> None \<or> \<not> expanded n"
  shows "\<exists>n'. node_at (tree (snd (toggleFolder n idx r s))) idx = Some n' \<and> children n' \<noteq> None"
proof (cases "children n = None")
  case True
  with assms(2) have "\<not> expanded n" by simp
  with True show ?thesis
    using node_at_modify_at [OF assms(1)]
    by (simp add: toggleFolder_fetch with_children_def flip_node_def)
next
  case False
  then show ?thesis
    using node_at_modify_at [OF assms(1), of flip_node]
    by (auto simp: toggleFolder_no_fetch flip_node_def)
qed

lemma toggle_run_no_fetch:
  "visibleNodes s = tree s \<Longrightarrow> node_at (tree s) idx = Some n \<Longrightarrow> children n \<noteq> None \<Longrightarrow>
   fst (toggle_run idx rs s) = []"
proof (induction rs arbitrary: s n)
  case Nil
  then show ?case by simp
next
  case (Cons r rs)
  show ?case
  proof (cases "node_is_dir n")
    case False
    then show ?thesis
      using Cons.prems(1,2) by simp
  next
    case True
    have step: "fst (toggleFolder n idx r s) = []"
      using Cons.prems(3) by (simp add: toggleFolder_no_fetch)
    obtain n' where n': "node_at (tree (snd (toggleFolder n idx r s))) idx = Some n'"
        "children n' \<noteq> None"
      using toggleFolder_children_present [OF Cons.prems(2)] Cons.prems(3) by blast
    have "fst (toggle_run idx rs (snd (toggleFolder n idx r s))) = []"
      using Cons.IH [OF visibleNodes_toggleFolder [OF Cons.prems(1)] n'] .
    then show ?thesis
      using Cons.prems(1,2) True step by (simp add: split_beta)
  qed
qed

text \<open>
  C1, as stated, fails. Three clicks on a collapsed, unfetched directory made while its
  first listing is still awaited issue the listing twice: the second click collapses
  the node, and the third finds it collapsed with \<open>children\<close> still absent. The handler
  keeps no record of a listing in flight. (With a search active the listing is also
  issued on every click of a directory whose place in the filtered list is not its place
  in the tree.)
\<close>

theorem toggle_fetches_twice:
  "fst (start_run [0] 3 local_example) =
     [ListDirectory ''/home/u/docs'', ListDirectory ''/home/u/docs''] \<and>
   children (tree (snd (start_run [0] 2 local_example)) ! 0) = None \<and>
   fst (toggle_run [0] [Inr [], Inr []] search_docs_example) =
     [ListDirectory ''/home/u/docs'', ListDirectory ''/home/u/docs'']"
  by (simp add: numeral_3_eq_3 numeral_2_eq_2 local_example_def search_docs_example_def dirA_def
      fileB_def dirC_def visibleNodes_def filteredTree_def toLowerCase_def toLowerCase_char_def
      toggleFolder_start_def toggleFolder_def loadDir_def update_node.simps
      setChildren_node.simps)

text \<open>
  C1, amended. A toggle of a directory node whose \<open>children\<close> are present (also when
  empty) issues no directory listing, and neither does a toggle of an expanded node (a
  collapse); a toggle of a collapsed node whose \<open>children\<close> are absent issues exactly
  one listing, of that node's path. This holds of the handler and of its first half
  alike. When the rows shown are the tree's own (no search is active, or every entry
  of the top level matches it) and every toggle has finished before the next click, then
  from a collapsed directory with absent \<open>children\<close> under the index path \<open>idx\<close> any
  number of toggles of that row issues that one listing, on the first toggle, and
  nothing afterwards, whatever the listings return.
\<close>

theorem toggleFolder_fetches_once:
  "(children a \<noteq> None \<longrightarrow>
      fst (toggleFolder a ia ra sa) = [] \<and> fst (toggleFolder_start a ia sa) = []) \<and>
   (expanded b \<longrightarrow>
      fst (toggleFolder b ib rb sb) = [] \<and> fst (toggleFolder_start b ib sb) = []) \<and>
   (\<not> expanded c \<and> children c = None \<longrightarrow>
      fst (toggleFolder c ic rc sc) = [ListDirectory (node_path c)] \<and>
      fst (toggleFolder_start c ic sc) = [ListDirectory (node_path c)]) \<and>
   (visibleNodes s = tree s \<and> node_at (tree s) idx = Some n \<and> node_is_dir n \<and>
    \<not> expanded n \<and> children n = None \<longrightarrow>
      fst (toggle_run idx (r # rs) s) = [ListDirectory (node_path n)])"
proof (intro conjI impI)
  assume "children a \<noteq> None"
  then show "fst (toggleFolder a ia ra sa) = []" by (simp add: toggleFolder_no_fetch)
  then show "fst (toggleFolder_start a ia sa) = []" using toggleFolder_start_calls [of a ia sa ra] by simp
next
  assume "expanded b"
  then show "fst (toggleFolder b ib rb sb) = []" by (simp add: toggleFolder_no_fetch)
  then show "fst (toggleFolder_start b ib sb) = []" using toggleFolder_start_calls [of b ib sb rb] by simp
next
  assume "\<not> expanded c \<and> children c = None"
  then show "fst (toggleFolder c ic rc sc) = [ListDirectory (node_path c)]"
    by (simp add: toggleFolder_fetch)
  then show "fst (toggleFolder_start c ic sc) = [ListDirectory (node_path c)]"
    using toggleFolder_start_calls [of c ic sc rc] by simp
next
  assume a: "visibleNodes s = tree s \<and> node_at (tree s) idx = Some n \<and> node_is_dir n \<and>
    \<not> expanded n \<and> children n = None"
  obtain n' where n': "node_at (tree (snd (toggleFolder n idx r s))) idx = Some n'"
      "children n' \<noteq> None"
    using toggleFolder_children_present a by blast
  have vis: "visibleNodes (snd (toggleFolder n idx r s)) = tree (snd (toggleFolder n idx r s))"
    using a visibleNodes_toggleFolder by blast
  have "fst (toggle_run idx rs (snd (toggleFolder n idx r s))) = []"
    using toggle_run_no_fetch [OF vis n'] .
  moreover have "fst (toggleFolder n idx r s) = [ListDirectory (node_path n)]"
    using a by (simp add: toggleFolder_fetch)
  ultimately show "fst (toggle_run idx (r # rs) s) = [ListDirectory (node_path n)]"
    using a by (simp add: split_beta)
qed

theorem toggleFolder_fetches_once_witness:
  "children dirC \<noteq> None \<and> fst (toggleFolder dirC [2] (Inr []) local_example) = [] \<and>
   expanded dirC \<and>
   \<not> expanded dirA \<and> children dirA = None \<and> node_is_dir dirA \<and>
   fst (toggleFolder dirA [0] (Inr []) local_example) = [ListDirectory ''/home/u/docs''] \<and>
   visibleNodes local_example = tree local_example \<and>
   node_at (tree local_example) [0] = Some dirA \<and>
   fst (toggle_run [0] [Inl ''denied'', Inr [], Inr []] local_example) =
     [ListDirectory ''/home/u/docs'']"
proof -
  have h1: "children dirC \<noteq> None" "expanded dirC" "\<not> expanded dirA \<and> children dirA = None"
    by (simp_all add: dirA_def dirC_def)
  have h2: "visibleNodes local_example = tree local_example \<and>
      node_at (tree local_example) [0] = Some dirA \<and> node_is_dir dirA \<and>
      \<not> expanded dirA \<and> children dirA = None"
    by (simp add: visibleNodes_def local_example_def dirA_def)
  have p: "node_path dirA = ''/home/u/docs''"
    by (simp add: dirA_def)
  note t = toggleFolder_fetches_once [of dirC "[2]" "Inr []" local_example dirC "[2]" "Inr []"
      local_example dirA "[0]" "Inr []" local_example local_example "[0]" dirA "Inl ''denied''"
      "[Inr [], Inr []]", unfolded p]
  show ?thesis
    using t h1 h2 by blast
qed

subsection \<open>A listing that fails\<close>

lemma failed_expand_at_index_path:
  assumes "visibleNodes s = tree s" and "node_at (tree s) idx = Some n"
    and "\<not> expanded n" and "children n = None"
  shows "fst (toggleFolder n idx (Inl err) s) = [ListDirectory (node_path n)]"
    and "error (snd (toggleFolder n idx (Inl err) s)) = Some err"
    and "node_at (tree (snd (toggleFolder n idx (Inl err) s))) idx =
       Some (TreeNode (node_name n) (node_path n) (node_is_dir n) (node_size n) (Some []) True False)"
    and "fst (toggle_run idx rs (snd (toggleFolder n idx (Inl err) s))) = []"
proof -
  let ?s1 = "snd (toggleFolder n idx (Inl err) s)"
  show "fst (toggleFolder n idx (Inl err) s) = [ListDirectory (node_path n)]"
    and "error ?s1 = Some err"
    using assms(3,4) by (simp_all add: toggleFolder_fetch)
  show at: "node_at (tree ?s1) idx =
       Some (TreeNode (node_name n) (node_path n) (node_is_dir n) (node_size n) (Some []) True False)"
    using assms(3,4) node_at_modify_at [OF assms(2)]
    by (simp add: toggleFolder_fetch with_children_def flip_node_def)
  show "fst (toggle_run idx rs ?s1) = []"
    using toggle_run_no_fetch [OF visibleNodes_toggleFolder [OF assms(1)] at] by simp
qed

text \<open>
  C9 fails on the code. The rows are rendered from the filtered list, so with a search
  active the index path of a row is its place in that list, while \<^verbatim>\<open>update\<close> and
  \<^verbatim>\<open>setChildren\<close> follow the index path in the whole tree. With Readme.txt and the
  directory docs at the top level and the search \<open>docs\<close>, the one row shown is docs
  under the index path 0: when its listing fails, the empty child list is stored on
  Readme.txt, docs stays collapsed and unfetched, and the next click on docs issues the
  listing again. The lemma above is what the claim says, and holds when the rows shown
  are the tree's own.
\<close>

theorem failed_listing_lands_on_other_node:
  "visibleNodes search_docs_example = [dirA] \<and>
   tree (snd (toggleFolder dirA [0] (Inl ''denied'') search_docs_example)) =
     [TreeNode ''Readme.txt'' ''/home/u/Readme.txt'' False 120 (Some []) True False, dirA] \<and>
   children dirA = None \<and>
   fst (toggle_run [0] [Inl ''denied'', Inl ''denied''] search_docs_example) =
     [ListDirectory ''/home/u/docs'', ListDirectory ''/home/u/docs'']"
  by (simp add: search_docs_example_def dirA_def fileB_def visibleNodes_def filteredTree_def
      toLowerCase_def toLowerCase_char_def toggleFolder_def loadDir_def update_node.simps
      setChildren_node.simps)




subsection \<open>The search filter\<close>



subsection \<open>Going up in a cloud folder\<close>

text \<open>
  C6. On a cloud connection \<^verbatim>\<open>goUp\<close> pops at most one element of the navigation stack,
  whatever the listing returns, and exactly the last one when the listing succeeds.
  From depth 1 or 0 the listing is requested with the null folder id; when it succeeds
  the stack is empty, the path shown is the cloud root and the entries are the root's;
  a second \<^verbatim>\<open>goUp\<close> from there leaves the stack empty.
\<close>

theorem goUp_never_underflows:
  "length (pathStack (snd (goUp (Some c) list_r pwd_r s))) \<le> length (pathStack s) \<and>
   length (pathStack s) \<le> Suc (length (pathStack (snd (goUp (Some c) list_r pwd_r s)))) \<and>
   pathStack (snd (goUp (Some c) (Inr files) pwd_r s)) = butlast (pathStack s) \<and>
   (length (pathStack s) \<le> 1 \<longrightarrow>
      fst (goUp (Some c) list_r pwd_r s) = [ListCloudDirectory (provider c) (token c) None] \<and>
      pathStack (snd (goUp (Some c) (Inr files) pwd_r s)) = [] \<and>
      remotePath (snd (goUp (Some c) (Inr files) pwd_r s)) = ''/ (Cloud Root)'' \<and>
      entries (snd (goUp (Some c) (Inr files) pwd_r s)) = files \<and>
      pathStack (snd (goUp (Some c) list_r2 pwd_r2 (snd (goUp (Some c) (Inr files) pwd_r s)))) = [])"
proof -
  have stack: "pathStack (snd (goUp (Some c) r p u)) =
      (case r of Inr fs \<Rightarrow> butlast (pathStack u) | Inl e \<Rightarrow> pathStack u)" for r p u
    by (cases r) (simp_all add: goUp_def loadRemoteDir_def Let_def)
  have call: "length (pathStack u) \<le> 1 \<Longrightarrow>
      fst (goUp (Some c) r p u) = [ListCloudDirectory (provider c) (token c) None]" for r p u
    by (cases r) (simp_all add: goUp_def loadRemoteDir_def Let_def)
  have root: "length (pathStack u) \<le> 1 \<Longrightarrow> butlast (pathStack u) = []" for u :: RemoteTreeState
    by (cases "pathStack u") (simp_all split: if_splits)
  have shown: "remotePath (snd (goUp (Some c) (Inr files) p u)) =
      (if butlast (pathStack u) = [] then ''/ (Cloud Root)''
       else ''Root / '' @ join '' / '' (map pe_name (butlast (pathStack u))))"
    "entries (snd (goUp (Some c) (Inr files) p u)) = files" for p u
    by (simp_all add: goUp_def loadRemoteDir_def Let_def)
  show ?thesis
    by (cases list_r; cases list_r2) (simp_all add: stack call root shown)
qed

theorem goUp_never_underflows_witness:
  "length (pathStack remote_example) \<le> 1 \<and>
   fst (goUp (Some cloud_example) (Inr []) (Inr []) remote_example) =
     [ListCloudDirectory ''google'' ''tok'' None] \<and>
   pathStack (snd (goUp (Some cloud_example) (Inr []) (Inr []) remote_example)) = [] \<and>
   remotePath (snd (goUp (Some cloud_example) (Inr []) (Inr []) remote_example)) = ''/ (Cloud Root)'' \<and>
   pathStack (snd (goUp (Some cloud_example) (Inr []) (Inr [])
     (snd (goUp (Some cloud_example) (Inr []) (Inr []) remote_example)))) = []"
proof -
  have h: "length (pathStack remote_example) \<le> 1"
    by (simp add: remote_example_def)
  have c: "provider cloud_example = ''google''" "token cloud_example = ''tok''"
    by (simp_all add: cloud_example_def)
  note t = goUp_never_underflows [of cloud_example "Inr []" "Inr []" remote_example "[]"
      "Inr []" "Inr []", unfolded c]
  show ?thesis
    using h t by blast
qed

subsection \<open>The icon cache\<close>

lemma getFileIcon_keeps:
  "iconCache e = Some v \<Longrightarrow> fst (snd (getFileIcon f r iconCache)) e = Some v"
  by (auto simp: getFileIcon_def Let_def split: option.splits sum.splits)

lemma icon_run_keeps:
  "iconCache e = Some v \<Longrightarrow> snd (icon_run reqs iconCache) e = Some v"
proof (induction reqs arbitrary: iconCache)
  case Nil
  then show ?case by simp
next
  case (Cons q reqs)
  obtain f r where q: "q = (f, r)" by (cases q)
  have "fst (snd (getFileIcon f r iconCache)) e = Some v"
    using Cons.prems getFileIcon_keeps [of iconCache e v f r] by simp
  then show ?case
    using Cons.IH [of "fst (snd (getFileIcon f r iconCache))"] by (simp add: q split_beta)
qed

lemma getFileIcon_cached_no_call:
  "iconCache e = Some v \<Longrightarrow> GetFileIcon e \<notin> set (fst (getFileIcon f r iconCache))"
  by (auto simp: getFileIcon_def Let_def split: option.splits sum.splits)

lemma getFileIcon_call_stores:
  "GetFileIcon e \<in> set (fst (getFileIcon f r iconCache)) \<Longrightarrow>
   fst (getFileIcon f r iconCache) = [GetFileIcon e] \<and>
   (\<exists>v. fst (snd (getFileIcon f r iconCache)) e = Some v)"
  by (auto simp: getFileIcon_def Let_def split: option.splits sum.splits if_splits)

lemma getFileIcon_two_halves:
  "fst (getFileIcon f r iconCache) = getFileIcon_start f iconCache \<and>
   fst (snd (getFileIcon f r iconCache)) =
     (case getFileIcon_start f iconCache of
        [] \<Rightarrow> iconCache
      | call # calls \<Rightarrow> getFileIcon_resume (toLowerCase (the (file_ext f))) r iconCache)"
  by (auto simp: getFileIcon_def getFileIcon_start_def getFileIcon_resume_def Let_def
      split: option.splits sum.splits)

lemma icon_effects_cached_no_call:
  "iconCache e = Some v \<Longrightarrow> GetFileIcon e \<notin> set (icon_effects fs iconCache)"
  by (auto simp: icon_effects_def getFileIcon_start_def Let_def split: option.splits if_splits)

lemma icon_run_cached_no_call:
  "iconCache e = Some v \<Longrightarrow> count_list (fst (icon_run reqs iconCache)) (GetFileIcon e) = 0"
proof (induction reqs arbitrary: iconCache)
  case Nil
  then show ?case by simp
next
  case (Cons q reqs)
  obtain f r where q: "q = (f, r)" by (cases q)
  have keep: "fst (snd (getFileIcon f r iconCache)) e = Some v"
    using Cons.prems getFileIcon_keeps [of iconCache e v f r] by simp
  have "count_list (fst (getFileIcon f r iconCache)) (GetFileIcon e) = 0"
    using getFileIcon_cached_no_call [of iconCache e v f r] Cons.prems
    by (simp add: count_list_0_iff)
  then show ?case
    using Cons.IH [of "fst (snd (getFileIcon f r iconCache))"] keep by (simp add: q split_beta)
qed

lemma icon_run_at_most_once:
  "count_list (fst (icon_run reqs iconCache)) (GetFileIcon e) \<le> 1"
proof (induction reqs arbitrary: iconCache)
  case Nil
  then show ?case by simp
next
  case (Cons q reqs)
  obtain f r where q: "q = (f, r)" by (cases q)
  let ?c1 = "fst (getFileIcon f r iconCache)"
  let ?cache1 = "fst (snd (getFileIcon f r iconCache))"
  have run: "fst (icon_run (q # reqs) iconCache) = ?c1 @ fst (icon_run reqs ?cache1)"
    by (simp add: q split_beta)
  show ?case
  proof (cases "GetFileIcon e \<in> set ?c1")
    case True
    then obtain v where "?c1 = [GetFileIcon e]" "?cache1 e = Some v"
      using getFileIcon_call_stores by blast
    then show ?thesis
      using icon_run_cached_no_call [of ?cache1 e v reqs] by (simp add: run)
  next
    case False
    then have "count_list ?c1 (GetFileIcon e) = 0"
      by (simp add: count_list_0_iff)
    then show ?thesis
      using Cons.IH [of ?cache1] by (simp add: run)
  qed
qed

text \<open>
  C8, as stated, fails. One render of two files of the same extension, with the
  extension not yet cached, issues two lookups for it: each row's effect reads the
  cache of that render, and no lookup in flight is recorded anywhere. And the first
  resolve of a file with the extension \<open>constructor\<close> issues no lookup and stores
  nothing, since the cache object inherits a member of that name.
\<close>

theorem render_looks_up_per_file:
  "icon_effects [''a.txt'', ''b.txt''] Map.empty = [GetFileIcon ''txt'', GetFileIcon ''txt''] \<and>
   count_list (icon_effects [''a.txt'', ''b.txt''] Map.empty) (GetFileIcon ''txt'') = 2 \<and>
   getFileIcon ''x.constructor'' (Inr ''icon'') Map.empty =
     ([], Map.empty, IconInherited ''constructor'')"
  by (simp add: icon_effects_def getFileIcon_start_def getFileIcon_def file_ext_def
      toLowerCase_def toLowerCase_char_def inherited_key_def)

text \<open>
  C8, amended. Over any sequence of resolves on one tree instance in which each has
  finished before the next starts, at most one \<^verbatim>\<open>get_file_icon\<close> call is issued for an
  extension. A resolve of a file whose lower-cased extension is not cached, and is not a
  name the cache object inherits, issues the call and stores its result, the empty
  string when the call failed. Once an extension is cached, also with the empty string
  of a failure, a resolve returns the cached value with no call, no later resolve
  changes the stored value or calls the backend for that extension, and no render
  issues a lookup for it.
\<close>

theorem icon_lookup_at_most_once:
  "count_list (fst (icon_run reqs iconCache)) (GetFileIcon e) \<le> 1 \<and>
   (file_ext f = Some x \<and> iconCache (toLowerCase x) = None \<and> \<not> inherited_key (toLowerCase x) \<longrightarrow>
      fst (getFileIcon f r iconCache) = [GetFileIcon (toLowerCase x)] \<and>
      fst (snd (getFileIcon f r iconCache)) (toLowerCase x) =
        Some (case r of Inr base64Icon \<Rightarrow> base64Icon | Inl err \<Rightarrow> [])) \<and>
   (file_ext g = Some y \<and> cache (toLowerCase y) = Some v \<longrightarrow>
      getFileIcon g r' cache = ([], cache, IconString v) \<and>
      snd (icon_run reqs' cache) (toLowerCase y) = Some v \<and>
      count_list (fst (icon_run reqs' cache)) (GetFileIcon (toLowerCase y)) = 0 \<and>
      GetFileIcon (toLowerCase y) \<notin> set (icon_effects fs cache))"
proof (intro conjI impI)
  show "count_list (fst (icon_run reqs iconCache)) (GetFileIcon e) \<le> 1"
    by (rule icon_run_at_most_once)
next
  assume "file_ext f = Some x \<and> iconCache (toLowerCase x) = None \<and> \<not> inherited_key (toLowerCase x)"
  then show "fst (getFileIcon f r iconCache) = [GetFileIcon (toLowerCase x)]"
    and "fst (snd (getFileIcon f r iconCache)) (toLowerCase x) =
        Some (case r of Inr base64Icon \<Rightarrow> base64Icon | Inl err \<Rightarrow> [])"
    by (cases r; simp add: getFileIcon_def Let_def)+
next
  assume a: "file_ext g = Some y \<and> cache (toLowerCase y) = Some v"
  then show "getFileIcon g r' cache = ([], cache, IconString v)"
    by (simp add: getFileIcon_def Let_def)
  show "snd (icon_run reqs' cache) (toLowerCase y) = Some v"
    using a icon_run_keeps by blast
  show "count_list (fst (icon_run reqs' cache)) (GetFileIcon (toLowerCase y)) = 0"
    using a icon_run_cached_no_call by blast
  show "GetFileIcon (toLowerCase y) \<notin> set (icon_effects fs cache)"
    using a icon_effects_cached_no_call by blast
qed

theorem icon_lookup_at_most_once_witness:
  "file_ext ''a.TXT'' = Some ''TXT'' \<and> toLowerCase ''TXT'' = ''txt'' \<and>
   \<not> inherited_key ''txt'' \<and>
   fst (getFileIcon ''a.TXT'' (Inl ''no icon'') Map.empty) = [GetFileIcon ''txt''] \<and>
   fst (snd (getFileIcon ''a.TXT'' (Inl ''no icon'') Map.empty)) ''txt'' = Some [] \<and>
   file_ext ''b.txt'' = Some ''txt'' \<and>
   getFileIcon ''b.txt'' (Inr ''icon'') [''txt'' \<mapsto> []] = ([], [''txt'' \<mapsto> []], IconString []) \<and>
   GetFileIcon ''txt'' \<notin> set (icon_effects [''b.txt'', ''c.txt''] [''txt'' \<mapsto> []]) \<and>
   count_list (fst (icon_run [(''a.TXT'', Inl ''no icon''), (''b.txt'', Inr ''icon'')] Map.empty))
     (GetFileIcon ''txt'') \<le> 1"
proof -
  have e: "file_ext ''a.TXT'' = Some ''TXT''" "toLowerCase ''TXT'' = ''txt''"
    "file_ext ''b.txt'' = Some ''txt''" "toLowerCase ''txt'' = ''txt''"
    "\<not> inherited_key ''txt''"
    by (simp_all add: file_ext_def toLowerCase_def toLowerCase_char_def inherited_key_def)
  note t = icon_lookup_at_most_once [of "[(''a.TXT'', Inl ''no icon''), (''b.txt'', Inr ''icon'')]"
      Map.empty "''txt''" "''a.TXT''" "''TXT''" "Inl ''no icon''" "''b.txt''" "''txt''"
      "[''txt'' \<mapsto> []]" "[]" "Inr ''icon''" "[]" "[''b.txt'', ''c.txt'']"]
  show ?thesis
    using t e by simp
qed

subsection \<open>Progress events\<close>

lemma run_timers_apply: "run_timers ids m k = (if k \<in> set ids then None else m k)"
  by (induction ids arbitrary: m) auto

lemma removal_pending_advance:
  "removal_pending d i u \<Longrightarrow> removal_pending d i (advance_to t u)"
  unfolding removal_pending_def advance_to_def
  by (cases "\<exists>due. due \<le> t \<and> (due, i) \<in> set (timers u)")
     (force simp: run_timers_apply)+

lemma removal_pending_event:
  "removal_pending d i u \<Longrightarrow> transfer_id q \<noteq> i \<Longrightarrow> removal_pending d i (onTransferProgress q u)"
  unfolding removal_pending_def onTransferProgress_def by auto

lemma removal_pending_deliver:
  "removal_pending d i u \<Longrightarrow> \<forall>(t, q) \<in> set evs. transfer_id q \<noteq> i \<Longrightarrow>
   removal_pending d i (deliver evs u)"
proof (induction evs arbitrary: u)
  case Nil
  then show ?case by simp
next
  case (Cons ev evs)
  obtain t q where ev: "ev = (t, q)" by (cases ev)
  have "removal_pending d i (onTransferProgress q (advance_to t u))"
    using Cons.prems by (simp add: ev removal_pending_advance removal_pending_event)
  then show ?case
    using Cons.IH Cons.prems(2) by (simp add: ev)
qed

lemma removal_pending_due:
  "removal_pending d i u \<Longrightarrow> d \<le> t \<Longrightarrow> activeTransfers (advance_to t u) i = None"
  unfolding removal_pending_def advance_to_def
  by (force simp: run_timers_apply)

lemma removal_pending_complete:
  "status p = ''complete'' \<Longrightarrow>
   removal_pending (now s + removal_delay) (transfer_id p) (onTransferProgress p s)"
  unfolding removal_pending_def onTransferProgress_def by auto

text \<open>
  C5. A \<open>complete\<close> event stores its record and increments the refresh token. The
  callback it schedules is due 5000 ms (5 units of one second) later: once the clock is
  there the record is gone from the map, whatever events for other transfers were
  delivered in between, at whatever times, provided none came for this transfer; until
  then the record stays (stated for a transfer with no older callback pending and no
  event in between). An event of any status, for a transfer that is or is not in the
  map, also after a removal, makes the event itself the transfer's record; the listener
  has no error path.
\<close>

theorem completed_transfer_removed_after_delay:
  "(status p = ''complete'' \<longrightarrow>
      activeTransfers (onTransferProgress p s) (transfer_id p) = Some p \<and>
      refreshKey (onTransferProgress p s) = refreshKey s + 1) \<and>
   (status p = ''complete'' \<and> (\<forall>(t', q) \<in> set evs. transfer_id q \<noteq> transfer_id p) \<and>
    now s + removal_delay \<le> t \<longrightarrow>
      activeTransfers (advance_to t (deliver evs (onTransferProgress p s))) (transfer_id p) = None) \<and>
   (status p = ''complete'' \<and> (\<forall>(due, i) \<in> set (timers s). i \<noteq> transfer_id p) \<and>
    t0 < now s + removal_delay \<longrightarrow>
      activeTransfers (advance_to t0 (onTransferProgress p s)) (transfer_id p) = Some p) \<and>
   activeTransfers (onTransferProgress q u) (transfer_id q) = Some q \<and>
   removal_delay = 5 * 1000"
proof (intro conjI impI)
  assume "status p = ''complete''"
  then show "activeTransfers (onTransferProgress p s) (transfer_id p) = Some p"
    and "refreshKey (onTransferProgress p s) = refreshKey s + 1"
    by (simp_all add: onTransferProgress_def)
next
  assume a: "status p = ''complete'' \<and> (\<forall>(t', q) \<in> set evs. transfer_id q \<noteq> transfer_id p) \<and>
    now s + removal_delay \<le> t"
  have "removal_pending (now s + removal_delay) (transfer_id p) (deliver evs (onTransferProgress p s))"
    using a removal_pending_deliver [OF removal_pending_complete] by blast
  then show "activeTransfers (advance_to t (deliver evs (onTransferProgress p s))) (transfer_id p) = None"
    using a removal_pending_due by blast
next
  assume a: "status p = ''complete'' \<and> (\<forall>(due, i) \<in> set (timers s). i \<noteq> transfer_id p) \<and>
    t0 < now s + removal_delay"
  then have "transfer_id p \<notin>
      set (map snd (filter (\<lambda>(due, i). due \<le> t0) (timers (onTransferProgress p s))))"
    by (auto simp: onTransferProgress_def)
  then show "activeTransfers (advance_to t0 (onTransferProgress p s)) (transfer_id p) = Some p"
    using a by (simp add: advance_to_def run_timers_apply) (simp add: onTransferProgress_def)
next
  show "activeTransfers (onTransferProgress q u) (transfer_id q) = Some q"
    by (simp add: onTransferProgress_def)
  show "removal_delay = 5 * 1000"
    by (simp add: removal_delay_def)
qed

theorem completed_transfer_removed_after_delay_witness:
  "status complete_t1 = ''complete'' \<and>
   activeTransfers (onTransferProgress complete_t1 idle_transfers) ''t1'' = Some complete_t1 \<and>
   refreshKey (onTransferProgress complete_t1 idle_transfers) = 1 \<and>
   activeTransfers
     (advance_to 5100 (deliver [(2000, progress_t2)] (onTransferProgress complete_t1 idle_transfers)))
     ''t1'' = None \<and>
   activeTransfers (advance_to 5099 (onTransferProgress complete_t1 idle_transfers)) ''t1''
     = Some complete_t1 \<and>
   activeTransfers
     (onTransferProgress progress_t1
        (advance_to 5100 (onTransferProgress complete_t1 idle_transfers))) ''t1''
     = Some progress_t1"
proof -
  have h1: "status complete_t1 = ''complete''" "transfer_id complete_t1 = ''t1''"
    "transfer_id progress_t1 = ''t1''"
    by (simp_all add: complete_t1_def progress_t1_def)
  have h2: "\<forall>(t', q) \<in> set [(2000, progress_t2)]. transfer_id q \<noteq> transfer_id complete_t1"
    by (simp add: complete_t1_def progress_t2_def)
  have h3: "now idle_transfers + removal_delay \<le> 5100" "5099 < now idle_transfers + removal_delay"
    "\<forall>(due, i) \<in> set (timers idle_transfers). i \<noteq> transfer_id complete_t1"
    "refreshKey idle_transfers = 0"
    by (simp_all add: idle_transfers_def removal_delay_def)
  note t = completed_transfer_removed_after_delay [of complete_t1 idle_transfers
      "[(2000, progress_t2)]" 5100 5099 progress_t1
      "advance_to 5100 (onTransferProgress complete_t1 idle_transfers)"]
  show ?thesis
    using t h1 h2 h3 by simp
qed

subsection \<open>Drops\<close>

lemma upload_each_effects:
  "upload_each cloudConfig rpath frs = concat (map (upload_effects cloudConfig rpath) frs)"
proof (induction frs)
  case Nil
  show ?case by simp
next
  case (Cons fr frs)
  obtain f r where fr: "fr = (f, r)" by (cases fr)
  show ?case
    using Cons.IH
    by (cases r) (simp_all add: fr upload_effects_def upload_lines_def upload_call_def)
qed

lemma logged_simps [simp]:
  "logged [] = []"
  "logged (TransferMsg m # es) = m # logged es"
  "logged (Invoke c # es) = logged es"
  "logged (Refresh # es) = logged es"
  "logged (BumpRefreshKey # es) = logged es"
  "logged (xs @ ys) = logged xs @ logged ys"
  by (simp_all add: logged_def)

lemma invoked_simps [simp]:
  "invoked [] = []"
  "invoked (TransferMsg m # es) = invoked es"
  "invoked (Invoke c # es) = c # invoked es"
  "invoked (Refresh # es) = invoked es"
  "invoked (BumpRefreshKey # es) = invoked es"
  "invoked (xs @ ys) = invoked xs @ invoked ys"
  by (simp_all add: invoked_def)

lemma logged_upload_effects: "logged (upload_effects cloudConfig rpath fr) = upload_lines fr"
  by (simp add: upload_effects_def upload_lines_def)

lemma invoked_upload_effects:
  "invoked (upload_effects cloudConfig rpath fr) =
     (if has_path fr then [upload_call cloudConfig rpath (fst fr)] else [])"
  by (simp add: upload_effects_def upload_lines_def has_path_def)

lemma logged_uploads:
  "logged (concat (map (upload_effects cloudConfig rpath) frs)) = concat (map upload_lines frs)"
  by (induction frs) (simp_all add: logged_upload_effects)

lemma invoked_uploads:
  "invoked (concat (map (upload_effects cloudConfig rpath) frs)) =
     map (\<lambda>fr. upload_call cloudConfig rpath (fst fr)) (filter has_path frs)"
  by (induction frs) (simp_all add: invoked_upload_effects)

lemma length_upload_lines:
  "length (concat (map upload_lines frs)) =
     2 * length (filter has_path frs) + length (filter (\<lambda>fr. \<not> has_path fr) frs)"
  by (induction frs) (simp_all add: upload_lines_def has_path_def)

lemma no_refresh_in_uploads:
  "count_list (concat (map (upload_effects cloudConfig rpath) frs)) Refresh = 0"
  by (induction frs) (simp_all add: upload_effects_def upload_lines_def)

text \<open>
  C3, as stated, fails. A drop of three files with paths, the second of which fails,
  appends eight lines to the transfer log, not three; and an empty drop returns before
  the loop and reloads nothing.
\<close>

theorem drop_log_has_more_lines:
  "length (logged (handleDrop_remote None ''/'' three_drops)) \<noteq> length three_drops \<and>
   length (logged (handleDrop_remote None ''/'' three_drops)) = 8 \<and>
   count_list (handleDrop_remote None ''/'' []) Refresh \<noteq> 1"
  by (simp add: handleDrop_remote_def three_drops_def truthy_def)

text \<open>
  C3, amended. The drop handler of the remote pane appends two DEBUG lines and then, when
  the drop is not empty, treats the files one after the other in drop order and ends
  with one reload of the pane, whatever the outcomes. A file with a path gets an
  Uploading line, its upload call and the line of its outcome (the result, or the
  upload error) before the next file is looked at; a file without a path gets a single
  line and no call. So the calls are the uploads of the files with a path in drop order,
  whatever the outcomes of the earlier ones, and the log grows by two lines plus two for
  each file with a path and one for each file without.
\<close>

theorem handleDrop_remote_sequence:
  "handleDrop_remote cloudConfig rpath frs =
     [TransferMsg ''DEBUG: Remote handleDrop event detected'',
      TransferMsg (''DEBUG: Remote files count: '' @ string_of_nat (length frs))]
     @ (if frs = [] then []
        else concat (map (upload_effects cloudConfig rpath) frs) @ [Refresh]) \<and>
   invoked (handleDrop_remote cloudConfig rpath frs) =
     map (\<lambda>fr. upload_call cloudConfig rpath (fst fr)) (filter has_path frs) \<and>
   logged (handleDrop_remote cloudConfig rpath frs) =
     [''DEBUG: Remote handleDrop event detected'',
      ''DEBUG: Remote files count: '' @ string_of_nat (length frs)]
     @ concat (map upload_lines frs) \<and>
   length (logged (handleDrop_remote cloudConfig rpath frs)) =
     2 + 2 * length (filter has_path frs) + length (filter (\<lambda>fr. \<not> has_path fr) frs) \<and>
   count_list (handleDrop_remote cloudConfig rpath frs) Refresh = (if frs = [] then 0 else 1) \<and>
   (frs \<noteq> [] \<longrightarrow> last (handleDrop_remote cloudConfig rpath frs) = Refresh)"
proof -
  have shape: "handleDrop_remote cloudConfig rpath frs =
     [TransferMsg ''DEBUG: Remote handleDrop event detected'',
      TransferMsg (''DEBUG: Remote files count: '' @ string_of_nat (length frs))]
     @ (if frs = [] then []
        else concat (map (upload_effects cloudConfig rpath) frs) @ [Refresh])"
    by (simp add: handleDrop_remote_def upload_each_effects)
  have inv: "invoked (handleDrop_remote cloudConfig rpath frs) =
     map (\<lambda>fr. upload_call cloudConfig rpath (fst fr)) (filter has_path frs)"
    unfolding shape
    by (cases "frs = []") (simp_all add: invoked_uploads)
  have log: "logged (handleDrop_remote cloudConfig rpath frs) =
     [''DEBUG: Remote handleDrop event detected'',
      ''DEBUG: Remote files count: '' @ string_of_nat (length frs)]
     @ concat (map upload_lines frs)"
    unfolding shape
    by (cases "frs = []") (simp_all add: logged_uploads)
  have len: "length (logged (handleDrop_remote cloudConfig rpath frs)) =
     2 + 2 * length (filter has_path frs) + length (filter (\<lambda>fr. \<not> has_path fr) frs)"
    unfolding log using length_upload_lines [of frs] by simp
  have cnt: "count_list (handleDrop_remote cloudConfig rpath frs) Refresh = (if frs = [] then 0 else 1)"
    unfolding shape using no_refresh_in_uploads [of cloudConfig rpath frs] by simp
  have lst: "frs \<noteq> [] \<longrightarrow> last (handleDrop_remote cloudConfig rpath frs) = Refresh"
    unfolding shape by simp
  show ?thesis
    using shape inv log len cnt lst by blast
qed

theorem handleDrop_remote_sequence_witness:
  "three_drops \<noteq> [] \<and>
   invoked (handleDrop_remote None ''/'' three_drops) =
     [UploadFile ''/home/u/a.txt'' ''a.txt'', UploadFile ''/home/u/b.txt'' ''b.txt'',
      UploadFile ''/home/u/c.txt'' ''c.txt''] \<and>
   logged (handleDrop_remote None ''/'' three_drops) =
     [''DEBUG: Remote handleDrop event detected'', ''DEBUG: Remote files count: 3'',
      ''Uploading a.txt'' @ ellipsis, ''Uploaded a.txt'',
      ''Uploading b.txt'' @ ellipsis, ''Upload error: 550 Permission denied'',
      ''Uploading c.txt'' @ ellipsis, ''Uploaded c.txt''] \<and>
   count_list (handleDrop_remote None ''/'' three_drops) Refresh = 1 \<and>
   last (handleDrop_remote None ''/'' three_drops) = Refresh"
proof -
  have h: "three_drops \<noteq> []"
    by (simp add: three_drops_def)
  note t = handleDrop_remote_sequence [of None "''/''" three_drops]
  have i: "map (\<lambda>fr. upload_call None ''/'' (fst fr)) (filter has_path three_drops) =
     [UploadFile ''/home/u/a.txt'' ''a.txt'', UploadFile ''/home/u/b.txt'' ''b.txt'',
      UploadFile ''/home/u/c.txt'' ''c.txt'']"
    by (simp add: three_drops_def has_path_def truthy_def upload_call_def)
  have l: "[''DEBUG: Remote handleDrop event detected'',
      ''DEBUG: Remote files count: '' @ string_of_nat (length three_drops)]
     @ concat (map upload_lines three_drops) =
     [''DEBUG: Remote handleDrop event detected'', ''DEBUG: Remote files count: 3'',
      ''Uploading a.txt'' @ ellipsis, ''Uploaded a.txt'',
      ''Uploading b.txt'' @ ellipsis, ''Upload error: 550 Permission denied'',
      ''Uploading c.txt'' @ ellipsis, ''Uploaded c.txt'']"
    by (simp add: three_drops_def upload_lines_def truthy_def
        string_of_nat.simps [of "Suc (Suc (Suc 0))"])
  have inv: "invoked (handleDrop_remote None ''/'' three_drops) =
     [UploadFile ''/home/u/a.txt'' ''a.txt'', UploadFile ''/home/u/b.txt'' ''b.txt'',
      UploadFile ''/home/u/c.txt'' ''c.txt'']"
    using t unfolding i by blast
  have log: "logged (handleDrop_remote None ''/'' three_drops) =
     [''DEBUG: Remote handleDrop event detected'', ''DEBUG: Remote files count: 3'',
      ''Uploading a.txt'' @ ellipsis, ''Uploaded a.txt'',
      ''Uploading b.txt'' @ ellipsis, ''Upload error: 550 Permission denied'',
      ''Uploading c.txt'' @ ellipsis, ''Uploaded c.txt'']"
    using t unfolding l by blast
  have cnt: "count_list (handleDrop_remote None ''/'' three_drops) Refresh = 1"
    using t [THEN conjunct2, THEN conjunct2, THEN conjunct2, THEN conjunct2, THEN conjunct1] h
    by (simp only: if_False)
  have lst: "last (handleDrop_remote None ''/'' three_drops) = Refresh"
    using t h by blast
  show ?thesis
    using h inv log cnt lst by blast
qed

subsection \<open>Where a drop goes\<close>

lemma drop_each_not_connected:
  "\<not> isRemoteConnected ctx \<Longrightarrow>
   invoked (drop_each ctx ps) = map (\<lambda>(filePath, r). CopyToLocal filePath (homePath ctx)) ps"
  by (induction ps) (auto split: sum.splits)

lemma drop_each_connected:
  "isRemoteConnected ctx \<Longrightarrow>
   list_all (\<lambda>c. case c of UploadFile a b \<Rightarrow> True | UploadCloudFile a b c d \<Rightarrow> True | _ \<Rightarrow> False)
     (invoked (drop_each ctx ps))"
  by (induction ps) (auto split: sum.splits option.splits)

lemma copy_each_local:
  "invoked (copy_each cpath frs) =
     map (\<lambda>(f, r). CopyToLocal (the (df_path f)) cpath) (filter (\<lambda>(f, r). truthy (df_path f)) frs)"
  by (induction frs) (auto split: sum.splits)

text \<open>
  C4 fails on the code. The listener takes a remote connection to be active when the
  status text contains \<open>connected\<close> or \<open>Connected\<close> and a connection is selected. The
  status the App starts with, \<open>Not Connected\<close>, contains \<open>Connected\<close>: with an FTP
  connection selected in the sidebar and never connected, a dropped file is sent to
  \<^verbatim>\<open>upload_file\<close> and not to \<^verbatim>\<open>copy_to_local\<close>. The three lemmas above show that the
  routing itself follows the test: every file is copied when the test fails, uploaded when
  it holds, and the local pane always copies.
\<close>

theorem drop_while_not_connected_uploads:
  "connectionStatus not_connected_example = ''Not Connected'' \<and>
   isRemoteConnected not_connected_example \<and>
   invoked (dragDrop not_connected_example [(''/home/u/a.txt'', Inl ''Not connected'')]) =
     [UploadFile ''/home/u/a.txt'' ''a.txt'']"
  by (simp add: not_connected_example_def initial_connectionStatus_def isRemoteConnected_def
      selectedFtpConn_def selectedCloudConn_def ftp_example_def dragDrop_def fileName_of_def)

theorem drop_while_not_connected_uploads_witness:
  "invoked (dragDrop not_connected_example [(''/home/u/a.txt'', Inl ''Not connected'')]) \<noteq>
     [CopyToLocal ''/home/u/a.txt'' ''/home/u'']"
  using drop_while_not_connected_uploads by simp

subsection \<open>Saving the configuration\<close>

text \<open>
  C10. \<^verbatim>\<open>saveConfig\<close> is atomic with respect to the in-memory configuration: when the
  backend \<^verbatim>\<open>save_config\<close> call fails, the store keeps its prior \<open>config\<close> (and
  \<open>loading\<close>) and only the error string is set; when the call succeeds, and only then,
  \<open>config\<close> is the new configuration, and nothing else of the store changes.
\<close>

theorem saveConfig_atomic:
  "config (saveConfig newConfig (Inl err) s) = config s \<and>
   store_loading (saveConfig newConfig (Inl err) s) = store_loading s \<and>
   store_error (saveConfig newConfig (Inl err) s) = Some err \<and>
   saveConfig newConfig (Inr u) s = s\<lparr>config := newConfig\<rparr>"
  by (simp add: saveConfig_def)

end
